theory Spec2Isabelle
  imports Main "HOL-Library.Word"
begin

unbundle bit_operations_syntax

section \<open>Data model\<close>

text \<open>
  A Python \<open>str\<close> is a sequence of Unicode code points and is modelled as a list of
  naturals; \<open>bytes\<close> is a list of 8-bit words. Source literals are written as Isabelle
  string literals and converted with \<open>str\<close>.
\<close>

type_synonym byte = "8 word"
type_synonym bytes = "byte list"
type_synonym u32 = "32 word"
type_synonym pystr = "nat list"

definition str :: "string \<Rightarrow> pystr" where
  "str s = map of_char s"

text \<open>The exceptions the modelled code and its library calls raise.\<close>

datatype exn = ValueError | TypeError | UnicodeEncodeError | JSONDecodeError | FileNotFoundError

section \<open>Library primitives used by the password hasher\<close>

subsection \<open>\<open>str.encode("utf-8")\<close>\<close>

text \<open>
  Strict UTF-8: a surrogate code point (U+D800..U+DFFF) raises \<open>UnicodeEncodeError\<close>.
  A number above U+10FFFF is not a code point; no Python string holds one, and the
  model rejects it in the same way.
\<close>

definition utf8_char :: "nat \<Rightarrow> exn + bytes" where
  "utf8_char c =
     (if c < 0x80 then Inr [word_of_nat c]
      else if c < 0x800 then
        Inr [word_of_nat (0xC0 + c div 64), word_of_nat (0x80 + c mod 64)]
      else if 0xD800 \<le> c \<and> c \<le> 0xDFFF then Inl UnicodeEncodeError
      else if c < 0x10000 then
        Inr [word_of_nat (0xE0 + c div 4096), word_of_nat (0x80 + (c div 64) mod 64),
             word_of_nat (0x80 + c mod 64)]
      else if c \<le> 0x10FFFF then
        Inr [word_of_nat (0xF0 + c div 262144), word_of_nat (0x80 + (c div 4096) mod 64),
             word_of_nat (0x80 + (c div 64) mod 64), word_of_nat (0x80 + c mod 64)]
      else Inl UnicodeEncodeError)"

fun encode_utf8 :: "pystr \<Rightarrow> exn + bytes" where
  "encode_utf8 [] = Inr []"
| "encode_utf8 (c # cs) =
     (case utf8_char c of
        Inl e \<Rightarrow> Inl e
      | Inr bs \<Rightarrow> (case encode_utf8 cs of Inl e \<Rightarrow> Inl e | Inr rest \<Rightarrow> Inr (bs @ rest)))"

text \<open>
  The strings without a surrogate: what decoding a request body as UTF-8 yields, and
  what the source's own literals are.
\<close>

definition scalar_value :: "nat \<Rightarrow> bool" where
  "scalar_value c = (c \<le> 0x10FFFF \<and> \<not> (0xD800 \<le> c \<and> c \<le> 0xDFFF))"

definition valid_text :: "pystr \<Rightarrow> bool" where
  "valid_text s = list_all scalar_value s"

subsection \<open>\<open>bytes.hex()\<close> and \<open>bytes.fromhex\<close>\<close>

definition hex_digit :: "nat \<Rightarrow> nat" where
  "hex_digit d = (if d < 10 then 48 + d else 87 + d)"

fun hex :: "bytes \<Rightarrow> pystr" where
  "hex [] = []"
| "hex (b # bs) = hex_digit (unat b div 16) # hex_digit (unat b mod 16) # hex bs"

definition digit_value :: "nat \<Rightarrow> nat option" where
  "digit_value c =
     (if 48 \<le> c \<and> c \<le> 57 then Some (c - 48)
      else if 97 \<le> c \<and> c \<le> 102 then Some (c - 87)
      else if 65 \<le> c \<and> c \<le> 70 then Some (c - 55)
      else None)"

definition is_space :: "nat \<Rightarrow> bool" where
  "is_space c = (c = 32 \<or> (9 \<le> c \<and> c \<le> 13))"

text \<open>
  \<open>bytes.fromhex\<close> reads two hexadecimal digits per byte, in either case, and skips
  ASCII whitespace between bytes (not inside one); anything else is a \<open>ValueError\<close>.
\<close>

fun fromhex_pairs :: "pystr \<Rightarrow> exn + bytes" where
  "fromhex_pairs [] = Inr []"
| "fromhex_pairs (c # cs) =
     (if is_space c then fromhex_pairs cs
      else (case digit_value c of
              None \<Rightarrow> Inl ValueError
            | Some hi \<Rightarrow>
               (case cs of
                  [] \<Rightarrow> Inl ValueError
                | d # ds \<Rightarrow>
                   (case digit_value d of
                      None \<Rightarrow> Inl ValueError
                    | Some lo \<Rightarrow>
                       (case fromhex_pairs ds of
                          Inl e \<Rightarrow> Inl e
                        | Inr rest \<Rightarrow> Inr (word_of_nat (hi * 16 + lo) # rest))))))"

definition fromhex :: "pystr \<Rightarrow> exn + bytes" where
  "fromhex s = (if list_ex (\<lambda>c. 128 \<le> c) s then Inl ValueError else fromhex_pairs s)"

subsection \<open>\<open>str.split(sep)\<close> for a one-character separator\<close>

fun split :: "nat \<Rightarrow> pystr \<Rightarrow> pystr list" where
  "split sep [] = [[]]"
| "split sep (c # cs) =
     (if c = sep then [] # split sep cs
      else (case split sep cs of
              [] \<Rightarrow> [[c]]
            | f # fs \<Rightarrow> (c # f) # fs))"

definition dollar :: nat where
  "dollar = 36"

subsection \<open>\<open>secrets.compare_digest\<close>\<close>

text \<open>
  On two \<open>str\<close> arguments the primitive raises \<open>TypeError\<close> unless both are ASCII, and
  then compares their bytes without leaving the loop early: the accumulator collects
  the XOR of every pair, and a length mismatch compares the right argument with itself
  and presets the accumulator to 1.
\<close>

definition tscmp :: "bytes \<Rightarrow> bytes \<Rightarrow> bool" where
  "tscmp a b =
     (let same = (length a = length b);
          left = (if same then a else b);
          result0 = (if same then 0 else 1 :: byte)
      in fold (\<lambda>(l, r) result. result OR (l XOR r)) (zip left b) result0 = 0)"

definition compare_digest :: "pystr \<Rightarrow> pystr \<Rightarrow> exn + bool" where
  "compare_digest a b =
     (if list_all (\<lambda>c. c < 128) a \<and> list_all (\<lambda>c. c < 128) b
      then Inr (tscmp (map word_of_nat a) (map word_of_nat b))
      else Inl TypeError)"

subsection \<open>SHA-256\<close>

definition K256 :: "u32 list" where
  "K256 =
    [0x428A2F98, 0x71374491, 0xB5C0FBCF, 0xE9B5DBA5, 0x3956C25B, 0x59F111F1, 0x923F82A4,
     0xAB1C5ED5, 0xD807AA98, 0x12835B01, 0x243185BE, 0x550C7DC3, 0x72BE5D74, 0x80DEB1FE,
     0x9BDC06A7, 0xC19BF174, 0xE49B69C1, 0xEFBE4786, 0x0FC19DC6, 0x240CA1CC, 0x2DE92C6F,
     0x4A7484AA, 0x5CB0A9DC, 0x76F988DA, 0x983E5152, 0xA831C66D, 0xB00327C8, 0xBF597FC7,
     0xC6E00BF3, 0xD5A79147, 0x06CA6351, 0x14292967, 0x27B70A85, 0x2E1B2138, 0x4D2C6DFC,
     0x53380D13, 0x650A7354, 0x766A0ABB, 0x81C2C92E, 0x92722C85, 0xA2BFE8A1, 0xA81A664B,
     0xC24B8B70, 0xC76C51A3, 0xD192E819, 0xD6990624, 0xF40E3585, 0x106AA070, 0x19A4C116,
     0x1E376C08, 0x2748774C, 0x34B0BCB5, 0x391C0CB3, 0x4ED8AA4A, 0x5B9CCA4F, 0x682E6FF3,
     0x748F82EE, 0x78A5636F, 0x84C87814, 0x8CC70208, 0x90BEFFFA, 0xA4506CEB, 0xBEF9A3F7,
     0xC67178F2]"

definition H256 :: "u32 list" where
  "H256 = [0x6A09E667, 0xBB67AE85, 0x3C6EF372, 0xA54FF53A,
           0x510E527F, 0x9B05688C, 0x1F83D9AB, 0x5BE0CD19]"

definition rotr :: "nat \<Rightarrow> u32 \<Rightarrow> u32" where
  "rotr n x = drop_bit n x OR push_bit (32 - n) x"

definition Ch :: "u32 \<Rightarrow> u32 \<Rightarrow> u32 \<Rightarrow> u32" where
  "Ch x y z = (x AND y) XOR (NOT x AND z)"

definition Maj :: "u32 \<Rightarrow> u32 \<Rightarrow> u32 \<Rightarrow> u32" where
  "Maj x y z = (x AND y) XOR (x AND z) XOR (y AND z)"

definition Sigma0 :: "u32 \<Rightarrow> u32" where
  "Sigma0 x = rotr 2 x XOR rotr 13 x XOR rotr 22 x"

definition Sigma1 :: "u32 \<Rightarrow> u32" where
  "Sigma1 x = rotr 6 x XOR rotr 11 x XOR rotr 25 x"

definition sigma0 :: "u32 \<Rightarrow> u32" where
  "sigma0 x = rotr 7 x XOR rotr 18 x XOR drop_bit 3 x"

definition sigma1 :: "u32 \<Rightarrow> u32" where
  "sigma1 x = rotr 17 x XOR rotr 19 x XOR drop_bit 10 x"

definition be32 :: "u32 \<Rightarrow> bytes" where
  "be32 w = [ucast (drop_bit 24 w), ucast (drop_bit 16 w), ucast (drop_bit 8 w), ucast w]"

definition be64 :: "nat \<Rightarrow> bytes" where
  "be64 n = map (\<lambda>i. word_of_nat (n div 256 ^ (7 - i))) [0, 1, 2, 3, 4, 5, 6, 7]"

definition pad :: "bytes \<Rightarrow> bytes" where
  "pad m = m @ [0x80] @ replicate ((119 - length m mod 64) mod 64) 0 @ be64 (8 * length m)"

fun words_be :: "bytes \<Rightarrow> u32 list" where
  "words_be (a # b # c # d # rest) =
     (push_bit 24 (ucast a) OR push_bit 16 (ucast b) OR push_bit 8 (ucast c) OR ucast d)
       # words_be rest"
| "words_be _ = []"

text \<open>The message schedule: 16 words of the block, extended to 64.\<close>

primrec extend :: "nat \<Rightarrow> u32 list \<Rightarrow> u32 list" where
  "extend 0 w = w"
| "extend (Suc n) w =
     extend n
       (w @ [sigma1 (w ! (length w - 2)) + w ! (length w - 7)
              + sigma0 (w ! (length w - 15)) + w ! (length w - 16)])"

fun round256 :: "u32 \<times> u32 \<Rightarrow> u32 list \<Rightarrow> u32 list" where
  "round256 (k, w) [a, b, c, d, e, f, g, h] =
     (let t1 = h + Sigma1 e + Ch e f g + k + w;
          t2 = Sigma0 a + Maj a b c
      in [t1 + t2, a, b, c, d + t1, e, f, g])"
| "round256 _ s = s"

definition compress :: "u32 list \<Rightarrow> bytes \<Rightarrow> u32 list" where
  "compress s block =
     map2 (+) s (fold round256 (zip K256 (extend 48 (words_be block))) s)"

fun sha256_blocks :: "nat \<Rightarrow> u32 list \<Rightarrow> bytes \<Rightarrow> u32 list" where
  "sha256_blocks 0 s m = s"
| "sha256_blocks (Suc n) s m = sha256_blocks n (compress s (take 64 m)) (drop 64 m)"

definition sha256 :: "bytes \<Rightarrow> bytes" where
  "sha256 m = concat (map be32 (sha256_blocks (length (pad m) div 64) H256 (pad m)))"

subsection \<open>HMAC-SHA-256 and \<open>hashlib.pbkdf2_hmac("sha256", ...)\<close>\<close>

definition xor_bytes :: "bytes \<Rightarrow> bytes \<Rightarrow> bytes" where
  "xor_bytes a b = map2 (XOR) a b"

definition hmac_key :: "bytes \<Rightarrow> bytes" where
  "hmac_key key =
     (let k = (if 64 < length key then sha256 key else key)
      in k @ replicate (64 - length k) 0)"

definition hmac_sha256 :: "bytes \<Rightarrow> bytes \<Rightarrow> bytes" where
  "hmac_sha256 key msg =
     (let k = hmac_key key
      in sha256 (map (\<lambda>b. b XOR 0x5c) k @ sha256 (map (\<lambda>b. b XOR 0x36) k @ msg)))"

text \<open>
  With \<open>dklen\<close> left out the derived key is one digest long, so it is the first PBKDF2
  block: the XOR of the chain \<open>U\<^sub>1 = HMAC(P, S || INT(1))\<close>, \<open>U\<^sub>j = HMAC(P, U\<^sub>j\<^sub>-\<^sub>1)\<close>.
\<close>

primrec pbkdf2_chain :: "bytes \<Rightarrow> nat \<Rightarrow> bytes \<Rightarrow> bytes \<Rightarrow> bytes" where
  "pbkdf2_chain pw 0 u acc = acc"
| "pbkdf2_chain pw (Suc n) u acc =
     pbkdf2_chain pw n (hmac_sha256 pw u) (xor_bytes acc (hmac_sha256 pw u))"

definition pbkdf2_hmac_sha256 :: "bytes \<Rightarrow> bytes \<Rightarrow> nat \<Rightarrow> exn + bytes" where
  "pbkdf2_hmac_sha256 password salt iterations =
     (if iterations < 1 then Inl ValueError
      else (let u1 = hmac_sha256 password (salt @ be32 1)
            in Inr (pbkdf2_chain password (iterations - 1) u1 u1)))"

text \<open>
  The same block in the words of RFC 8018: \<open>pbkdf2_U pw salt j\<close> is the chained value
  \<open>U\<^sub>j\<^sub>+\<^sub>1\<close>, and the derived key is the XOR of the first \<open>c\<close> of them.
\<close>

definition pbkdf2_U :: "bytes \<Rightarrow> bytes \<Rightarrow> nat \<Rightarrow> bytes" where
  "pbkdf2_U pw salt j = ((hmac_sha256 pw) ^^ j) (hmac_sha256 pw (salt @ [0, 0, 0, 1]))"

definition pbkdf2_spec :: "bytes \<Rightarrow> bytes \<Rightarrow> nat \<Rightarrow> bytes" where
  "pbkdf2_spec pw salt c =
     fold (\<lambda>j t. xor_bytes t (pbkdf2_U pw salt j)) [1..<c] (pbkdf2_U pw salt 0)"

section \<open>The world the application runs in\<close>

text \<open>
  \<open>users.json\<close> is absent or has a content. \<open>json.load\<close> either returns the object
  of strings the content denotes (the \<open>Dict[str, str]\<close> of the source's annotations,
  which is what \<open>json.dump\<close> wrote) or raises \<open>JSONDecodeError\<close>; the text itself
  is not modelled, and a JSON document of another shape lies outside the annotated
  type. The secure random source is an unbounded tape of bytes, and \<open>stdout\<close>
  collects what \<open>print\<close> writes.
\<close>

datatype file_content = Json_object "pystr \<rightharpoonup> pystr" | Malformed

record world =
  users_file :: "file_content option"
  entropy :: "nat \<Rightarrow> byte"
  stdout :: "pystr list"

definition token_bytes :: "nat \<Rightarrow> world \<Rightarrow> bytes \<times> world" where
  "token_bytes n w = (map (entropy w) [0..<n], w\<lparr>entropy := (\<lambda>i. entropy w (i + n))\<rparr>)"

section \<open>Config\<close>

definition USERS_FILE :: pystr where
  "USERS_FILE = str ''users.json''"

definition DEFAULT_ADMIN_username :: pystr where
  "DEFAULT_ADMIN_username = str ''admin''"

definition DEFAULT_ADMIN_password :: pystr where
  "DEFAULT_ADMIN_password = str ''secret123''"

section \<open>Utilities: password hashing (PBKDF2)\<close>

text \<open>
  \<open>hash_password\<close> draws the salt first when none is given, so the tape has moved on
  even if encoding the password then raises.
\<close>

definition hash_password :: "pystr \<Rightarrow> bytes option \<Rightarrow> world \<Rightarrow> (exn + pystr) \<times> world" where
  "hash_password password salt w =
     (let (salt', w') = (case salt of None \<Rightarrow> token_bytes 16 w | Some s \<Rightarrow> (s, w))
      in case encode_utf8 password of
           Inl e \<Rightarrow> (Inl e, w')
         | Inr pw \<Rightarrow>
            (case pbkdf2_hmac_sha256 pw salt' 200000 of
               Inl e \<Rightarrow> (Inl e, w')
             | Inr dk \<Rightarrow> (Inr (hex salt' @ str ''$'' @ hex dk), w')))"

text \<open>The body of the \<open>try\<close> block of \<open>verify_password\<close>, with what it raises.\<close>

definition verify_password_try :: "pystr \<Rightarrow> pystr \<Rightarrow> exn + bool" where
  "verify_password_try password stored =
     (case split dollar stored of
        [salt_hex, hash_hex] \<Rightarrow>
          (case fromhex salt_hex of
             Inl e \<Rightarrow> Inl e
           | Inr salt \<Rightarrow>
              (case encode_utf8 password of
                 Inl e \<Rightarrow> Inl e
               | Inr pw \<Rightarrow>
                  (case pbkdf2_hmac_sha256 pw salt 200000 of
                     Inl e \<Rightarrow> Inl e
                   | Inr candidate \<Rightarrow> compare_digest (hex candidate) hash_hex)))
      | _ \<Rightarrow> Inl ValueError)"

text \<open>\<open>except Exception: return False\<close>: every exception of the datatype is caught.\<close>

definition verify_password :: "pystr \<Rightarrow> pystr \<Rightarrow> bool" where
  "verify_password password stored =
     (case verify_password_try password stored of Inl e \<Rightarrow> False | Inr b \<Rightarrow> b)"

section \<open>Users file management\<close>

definition ensure_users_file :: "world \<Rightarrow> (exn + unit) \<times> world" where
  "ensure_users_file w =
     (if users_file w = None then
        (case hash_password DEFAULT_ADMIN_password None w of
           (Inl e, w') \<Rightarrow> (Inl e, w')
         | (Inr hashed, w') \<Rightarrow>
            (Inr (),
             w'\<lparr>users_file := Some (Json_object [DEFAULT_ADMIN_username \<mapsto> hashed]),
                stdout := stdout w' @
                  [str ''Created '' @ USERS_FILE @ str '' with default credentials: '' @
                   DEFAULT_ADMIN_username @ str '' / '' @ DEFAULT_ADMIN_password]\<rparr>))
      else (Inr (), w))"

definition load_users :: "world \<Rightarrow> (exn + (pystr \<rightharpoonup> pystr)) \<times> world" where
  "load_users w =
     (case ensure_users_file w of
        (Inl e, w') \<Rightarrow> (Inl e, w')
      | (Inr u, w') \<Rightarrow>
         (case users_file w' of
            None \<Rightarrow> (Inl FileNotFoundError, w')
          | Some Malformed \<Rightarrow> (Inl JSONDecodeError, w')
          | Some (Json_object users) \<Rightarrow> (Inr users, w')))"

definition save_users :: "(pystr \<rightharpoonup> pystr) \<Rightarrow> world \<Rightarrow> world" where
  "save_users users w = w\<lparr>users_file := Some (Json_object users)\<rparr>"

section \<open>Auth helpers and routes\<close>

text \<open>
  The session of a request is its dictionary; a response is a redirect (URL and status)
  or a rendered template with its context (the \<open>request\<close> entry left out).
\<close>

type_synonym session = "pystr \<rightharpoonup> pystr"

datatype response =
    RedirectResponse pystr nat
  | TemplateResponse string "(string \<times> pystr option) list"

definition get_current_user :: "session \<Rightarrow> pystr option" where
  "get_current_user session = session (str ''user'')"

definition invalid_credentials :: "pystr option \<Rightarrow> response" where
  "invalid_credentials next =
     TemplateResponse ''login.html''
       [(''next'', next), (''error'', Some (str ''Invalid credentials''))]"

definition do_login ::
  "session \<Rightarrow> pystr \<Rightarrow> pystr \<Rightarrow> pystr option \<Rightarrow> world \<Rightarrow> (exn + response) \<times> session \<times> world"
where
  "do_login session username password next w =
     (case load_users w of
        (Inl e, w') \<Rightarrow> (Inl e, session, w')
      | (Inr users, w') \<Rightarrow>
         (case users username of
            None \<Rightarrow> (Inr (invalid_credentials next), session, w')
          | Some stored \<Rightarrow>
             if stored \<noteq> [] \<and> verify_password password stored then
               (Inr (RedirectResponse
                      (case next of None \<Rightarrow> str ''/'' | Some n \<Rightarrow> if n = [] then str ''/'' else n)
                      303),
                session(str ''user'' \<mapsto> username), w')
             else (Inr (invalid_credentials next), session, w')))"

definition change_password_page ::
  "pystr \<Rightarrow> pystr option \<Rightarrow> pystr option \<Rightarrow> response" where
  "change_password_page username error success =
     TemplateResponse ''change_password.html''
       [(''user'', Some username), (''error'', error), (''success'', success)]"

definition change_password ::
  "session \<Rightarrow> pystr \<Rightarrow> pystr \<Rightarrow> pystr \<Rightarrow> world \<Rightarrow> (exn + response) \<times> world"
where
  "change_password session current new_password confirm w =
     (case get_current_user session of
        None \<Rightarrow> (Inr (RedirectResponse (str ''/login?next=/change-password'') 303), w)
      | Some username \<Rightarrow>
         (case load_users w of
            (Inl e, w') \<Rightarrow> (Inl e, w')
          | (Inr users, w') \<Rightarrow>
             if (case users username of
                   None \<Rightarrow> True
                 | Some stored \<Rightarrow> stored = [] \<or> \<not> verify_password current stored)
             then
               (Inr (change_password_page username
                      (Some (str ''Current password incorrect'')) None), w')
             else if new_password \<noteq> confirm then
               (Inr (change_password_page username
                      (Some (str ''Passwords do not match'')) None), w')
             else
               (case hash_password new_password None w' of
                  (Inl e, w'') \<Rightarrow> (Inl e, w'')
                | (Inr hashed, w'') \<Rightarrow>
                   (Inr (change_password_page username None
                          (Some (str ''Password updated''))),
                    save_users (users(username \<mapsto> hashed)) w''))))"

section \<open>A sample world\<close>

text \<open>No users file yet, nothing printed, and a tape that counts: byte \<open>i\<close> is \<open>i mod 256\<close>.\<close>

definition fresh_world :: world where
  "fresh_world = \<lparr>users_file = None, entropy = (\<lambda>i. word_of_nat i), stdout = []\<rparr>"

text \<open>The sample world after its first \<open>load_users\<close>, and a session logged in as the default account.\<close>

definition bootstrapped_world :: world where
  "bootstrapped_world = snd (load_users fresh_world)"

definition admin_session :: session where
  "admin_session = [str ''user'' \<mapsto> DEFAULT_ADMIN_username]"

text \<open>The bootstrapped world with a second account, whose stored hash is not a real one.\<close>

definition two_user_world :: world where
  "two_user_world =
     (case load_users fresh_world of
        (Inr users, w) \<Rightarrow> save_users (users(str ''bob'' \<mapsto> str ''00$00'')) w
      | (Inl e, w) \<Rightarrow> w)"

definition bob_session :: session where
  "bob_session = [str ''user'' \<mapsto> str ''bob'']"

section \<open>Facts about the library primitives\<close>

lemma str_dollar: "str ''$'' = [dollar]"
  by (simp add: str_def dollar_def)

lemma digit_value_hex_digit: "d < 16 \<Longrightarrow> digit_value (hex_digit d) = Some d"
  by (auto simp: digit_value_def hex_digit_def)

lemma hex_digit_not_space: "d < 16 \<Longrightarrow> \<not> is_space (hex_digit d)"
  by (auto simp: is_space_def hex_digit_def)

lemma hex_digit_ascii: "d < 16 \<Longrightarrow> hex_digit d < 128"
  by (auto simp: hex_digit_def)

lemma hex_digit_not_dollar: "d < 16 \<Longrightarrow> hex_digit d \<noteq> dollar"
  by (auto simp: hex_digit_def dollar_def)

lemma nibbles: "unat (b :: byte) div 16 < 16" "unat b mod 16 < 16"
proof -
  have "unat b < 256" using unsigned_less [of b, where ?'a = nat] by simp
  then show "unat b div 16 < 16" by simp
  show "unat b mod 16 < 16" by simp
qed

lemma byte_of_nibbles: "word_of_nat (unat (b :: byte) div 16 * 16 + unat b mod 16) = b"
  by simp

lemma dollar_notin_hex: "dollar \<notin> set (hex bs)"
proof (induction bs)
  case Nil
  then show ?case by simp
next
  case (Cons b bs)
  have "hex_digit (unat b div 16) \<noteq> dollar" "hex_digit (unat b mod 16) \<noteq> dollar"
    by (simp_all add: hex_digit_not_dollar nibbles)
  with Cons show ?case by auto
qed

lemma hex_ascii: "list_all (\<lambda>c. c < 128) (hex bs)"
  by (induction bs) (auto simp: hex_digit_ascii nibbles)

lemma fromhex_pairs_hex: "fromhex_pairs (hex bs) = Inr bs"
  by (induction bs) (simp_all add: hex_digit_not_space digit_value_hex_digit nibbles)

lemma fromhex_hex: "fromhex (hex bs) = Inr bs"
proof -
  have "\<not> list_ex (\<lambda>c. 128 \<le> c) (hex bs)"
    using hex_ascii [of bs] by (auto simp: list_all_iff list_ex_iff)
  then show ?thesis by (simp add: fromhex_def fromhex_pairs_hex)
qed

lemma hex_inject: "hex a = hex b \<longleftrightarrow> a = b"
proof
  assume "hex a = hex b"
  then have "fromhex (hex a) = fromhex (hex b)" by simp
  then show "a = b" by (simp add: fromhex_hex)
qed simp

lemma split_no_sep: "sep \<notin> set xs \<Longrightarrow> split sep xs = [xs]"
  by (induction xs) auto

lemma split_append: "sep \<notin> set xs \<Longrightarrow> split sep (xs @ sep # ys) = xs # split sep ys"
  by (induction xs) auto

lemma split_not_Nil: "split sep xs \<noteq> []"
  by (induction xs) (auto split: list.splits)

lemma length_split: "length (split sep xs) = Suc (count_list xs sep)"
  by (induction xs) (auto split: list.splits simp: split_not_Nil)

lemma xor_byte_zero: "(a :: byte) XOR b = 0 \<longleftrightarrow> a = b"
proof
  assume "a XOR b = 0"
  then have "(a XOR b) XOR b = 0 XOR b" by simp
  then show "a = b" by (simp add: xor.assoc)
qed simp

lemma fold_or_zero:
  "fold (\<lambda>(l, r) result. result OR (l XOR r)) ps (r0 :: byte) = 0
     \<longleftrightarrow> r0 = 0 \<and> (\<forall>(l, r) \<in> set ps. l = r)"
  by (induction ps arbitrary: r0) (auto simp: or_eq_0_iff xor_byte_zero)

lemma tscmp_eq: "tscmp a b \<longleftrightarrow> a = b"
proof (cases "length a = length b")
  case True
  then show ?thesis
    by (auto simp: tscmp_def fold_or_zero list_eq_iff_zip_eq)
next
  case False
  then show ?thesis
    by (auto simp: tscmp_def fold_or_zero)
qed

lemma map_byte_inject:
  assumes "list_all (\<lambda>c. c < 128) a" "list_all (\<lambda>c. c < 128) b"
  shows "map word_of_nat a = (map word_of_nat b :: bytes) \<longleftrightarrow> a = b"
proof
  assume eq: "map word_of_nat a = (map word_of_nat b :: bytes)"
  then have "map unat (map word_of_nat a :: bytes) = map unat (map word_of_nat b :: bytes)"
    by simp
  moreover have "map unat (map word_of_nat xs :: bytes) = xs" if "list_all (\<lambda>c. c < 128) xs" for xs
    using that by (induction xs) (auto simp: unat_of_nat)
  ultimately show "a = b" using assms by simp
qed simp

lemma compare_digest_ascii:
  "list_all (\<lambda>c. c < 128) a \<Longrightarrow> list_all (\<lambda>c. c < 128) b \<Longrightarrow> compare_digest a b = Inr (a = b)"
  by (simp add: compare_digest_def tscmp_eq map_byte_inject)

lemma compare_digest_non_ascii:
  "\<not> list_all (\<lambda>c. c < 128) b \<Longrightarrow> compare_digest a b = Inl TypeError"
  by (simp add: compare_digest_def)

lemma utf8_char_scalar: "scalar_value c \<Longrightarrow> \<exists>bs. utf8_char c = Inr bs"
  by (auto simp: scalar_value_def utf8_char_def)

lemma encode_utf8_valid: "valid_text s \<Longrightarrow> \<exists>bs. encode_utf8 s = Inr bs"
proof (induction s)
  case Nil
  then show ?case by simp
next
  case (Cons c cs)
  then obtain bs rest where "utf8_char c = Inr bs" "encode_utf8 cs = Inr rest"
    using utf8_char_scalar [of c] by (auto simp: valid_text_def)
  then show ?case by simp
qed

lemma encode_utf8_iff: "(\<exists>bs. encode_utf8 s = Inr bs) \<longleftrightarrow> valid_text s"
proof
  show "\<exists>bs. encode_utf8 s = Inr bs \<Longrightarrow> valid_text s"
  proof (induction s)
    case Nil
    then show ?case by (simp add: valid_text_def)
  next
    case (Cons c cs)
    then show ?case
      by (auto simp: valid_text_def scalar_value_def utf8_char_def split: sum.splits if_splits)
  qed
qed (rule encode_utf8_valid)

lemma length_be32: "length (be32 w) = 4"
  by (simp add: be32_def)

lemma length_round256: "length (round256 kw s) = length s"
  by (cases "(kw, s)" rule: round256.cases) (simp_all add: Let_def)

lemma length_fold_round256: "length (fold round256 kws s) = length s"
  by (induction kws arbitrary: s) (simp_all add: length_round256)

lemma length_compress: "length (compress s block) = length s"
  by (simp add: compress_def length_fold_round256)

lemma length_sha256_blocks: "length (sha256_blocks n s m) = length s"
  by (induction n arbitrary: s m) (simp_all add: length_compress)

lemma length_concat_be32: "length (concat (map be32 ws)) = 4 * length ws"
  by (induction ws) (simp_all add: length_be32)

lemma length_sha256: "length (sha256 m) = 32"
  by (simp add: sha256_def length_concat_be32 length_sha256_blocks H256_def)

lemma length_hmac_sha256: "length (hmac_sha256 key msg) = 32"
  by (simp add: hmac_sha256_def Let_def length_sha256)

lemma length_pbkdf2_chain:
  "length u = 32 \<Longrightarrow> length acc = 32 \<Longrightarrow> length (pbkdf2_chain pw n u acc) = 32"
  by (induction n arbitrary: u acc) (simp_all add: xor_bytes_def length_hmac_sha256)

lemma pbkdf2_hmac_sha256_ok:
  "0 < n \<Longrightarrow> \<exists>dk. pbkdf2_hmac_sha256 pw salt n = Inr dk \<and> length dk = 32"
  by (simp add: pbkdf2_hmac_sha256_def Let_def length_pbkdf2_chain length_hmac_sha256)

section \<open>Hashing and verification\<close>

lemma split_hash: "split dollar (hex s @ str ''$'' @ hex dk) = [hex s, hex dk]"
  by (simp add: str_dollar split_append split_no_sep dollar_notin_hex)

lemma compare_digest_hex: "compare_digest (hex dk) h = Inr True \<longleftrightarrow> h = hex dk"
proof (cases "list_all (\<lambda>c. c < 128) h")
  case True
  then show ?thesis by (auto simp: compare_digest_ascii hex_ascii)
next
  case False
  then have "h \<noteq> hex dk" using hex_ascii [of dk] by auto
  with False show ?thesis by (simp add: compare_digest_non_ascii)
qed

lemma compare_digest_hex_self: "compare_digest (hex dk) (hex dk) = Inr True"
  by (simp add: compare_digest_hex)

lemma verify_password_iff:
  "verify_password p stored \<longleftrightarrow>
     (\<exists>salt_hex salt pw dk.
        split dollar stored = [salt_hex, hex dk] \<and> fromhex salt_hex = Inr salt \<and>
        encode_utf8 p = Inr pw \<and> pbkdf2_hmac_sha256 pw salt 200000 = Inr dk)"
  by (auto simp: verify_password_def verify_password_try_def compare_digest_hex
           compare_digest_hex_self split: list.splits sum.splits)

lemma verify_password_hash:
  "verify_password q (hex s @ str ''$'' @ hex dk) \<longleftrightarrow>
     (\<exists>qw. encode_utf8 q = Inr qw \<and> pbkdf2_hmac_sha256 qw s 200000 = Inr dk)"
  by (auto simp: verify_password_iff split_hash fromhex_hex hex_inject)

lemma hash_password_Some:
  assumes "encode_utf8 p = Inr pw"
  shows "\<exists>dk. pbkdf2_hmac_sha256 pw s 200000 = Inr dk \<and> length dk = 32 \<and>
           hash_password p (Some s) w = (Inr (hex s @ str ''$'' @ hex dk), w)"
proof -
  obtain dk where "pbkdf2_hmac_sha256 pw s 200000 = Inr dk" "length dk = 32"
    using pbkdf2_hmac_sha256_ok [of 200000 pw s] by auto
  with assms show ?thesis by (simp add: hash_password_def)
qed

lemma hash_password_None:
  assumes "encode_utf8 p = Inr pw"
  shows "\<exists>dk. pbkdf2_hmac_sha256 pw (map (entropy w) [0..<16]) 200000 = Inr dk \<and> length dk = 32 \<and>
           hash_password p None w =
             (Inr (hex (map (entropy w) [0..<16]) @ str ''$'' @ hex dk),
              w\<lparr>entropy := (\<lambda>i. entropy w (i + 16))\<rparr>)"
proof -
  obtain dk where "pbkdf2_hmac_sha256 pw (map (entropy w) [0..<16]) 200000 = Inr dk" "length dk = 32"
    using pbkdf2_hmac_sha256_ok [of 200000 pw "map (entropy w) [0..<16]"] by auto
  with assms show ?thesis by (simp add: hash_password_def token_bytes_def)
qed


lemma valid_text_default: "valid_text DEFAULT_ADMIN_password"
  by (simp add: valid_text_def DEFAULT_ADMIN_password_def str_def scalar_value_def)



lemma be32_1: "be32 1 = [0, 0, 0, 1]"
  by (simp add: be32_def)

lemma fold_map_Suc: "fold f (map Suc xs) a = fold (\<lambda>j. f (Suc j)) xs a"
  by (induction xs arbitrary: a) simp_all

lemma pbkdf2_chain_fold:
  "pbkdf2_chain pw n u acc =
     fold (\<lambda>j a. xor_bytes a (((hmac_sha256 pw) ^^ Suc j) u)) [0..<n] acc"
proof (induction n arbitrary: u acc)
  case 0
  then show ?case by simp
next
  case (Suc n)
  have "[0..<Suc n] = 0 # map Suc [0..<n]"
    by (simp add: upt_conv_Cons map_Suc_upt del: upt_Suc)
  then have "fold (\<lambda>j a. xor_bytes a (((hmac_sha256 pw) ^^ Suc j) u)) [0..<Suc n] acc =
        fold (\<lambda>j a. xor_bytes a (((hmac_sha256 pw) ^^ Suc (Suc j)) u)) [0..<n]
          (xor_bytes acc (hmac_sha256 pw u))"
    by (simp add: fold_map_Suc del: upt_Suc)
  also have "\<dots> = fold (\<lambda>j a. xor_bytes a (((hmac_sha256 pw) ^^ Suc j) (hmac_sha256 pw u))) [0..<n]
          (xor_bytes acc (hmac_sha256 pw u))"
    by (simp add: funpow_swap1)
  finally show ?case using Suc.IH [of "hmac_sha256 pw u" "xor_bytes acc (hmac_sha256 pw u)"]
    by simp
qed

lemma pbkdf2_hmac_sha256_spec:
  assumes "0 < c"
  shows "pbkdf2_hmac_sha256 pw salt c = Inr (pbkdf2_spec pw salt c)"
proof -
  have "[1..<c] = map Suc [0..<c - 1]"
    using assms by (simp add: map_Suc_upt del: upt_Suc)
  then have "pbkdf2_spec pw salt c =
      fold (\<lambda>j t. xor_bytes t (pbkdf2_U pw salt (Suc j))) [0..<c - 1] (pbkdf2_U pw salt 0)"
    by (simp add: pbkdf2_spec_def fold_map_Suc)
  also have "\<dots> = pbkdf2_chain pw (c - 1) (hmac_sha256 pw (salt @ [0, 0, 0, 1]))
                      (hmac_sha256 pw (salt @ [0, 0, 0, 1]))"
    by (simp add: pbkdf2_chain_fold pbkdf2_U_def del: funpow.simps)
  finally show ?thesis
    using assms by (simp add: pbkdf2_hmac_sha256_def be32_1 Let_def)
qed

lemma length_pbkdf2_spec: "0 < c \<Longrightarrow> length (pbkdf2_spec pw salt c) = 32"
  using pbkdf2_hmac_sha256_ok [of c pw salt] by (auto simp: pbkdf2_hmac_sha256_spec)

text \<open>
  C2. For a password that is well-formed text, \<open>hash_password\<close> does not fail and
  returns \<open>hex(salt) + "$" + hex(dk)\<close>, where \<open>dk\<close> is the 32-byte PBKDF2 block
  of HMAC-SHA-256 over the UTF-8 bytes of the password and the salt with 200000
  iterations. With the salt left out, the salt is the next 16 bytes of the random
  source, which moves on by 16.
\<close>

theorem hash_password_construction:
  assumes "valid_text p"
  shows "\<exists>pw. encode_utf8 p = Inr pw \<and>
           length (pbkdf2_spec pw s 200000) = 32 \<and>
           hash_password p (Some s) w =
             (Inr (hex s @ str ''$'' @ hex (pbkdf2_spec pw s 200000)), w) \<and>
           (\<exists>salt. salt = map (entropy w) [0..<16] \<and> length salt = 16 \<and>
              length (pbkdf2_spec pw salt 200000) = 32 \<and>
              hash_password p None w =
                (Inr (hex salt @ str ''$'' @ hex (pbkdf2_spec pw salt 200000)),
                 w\<lparr>entropy := (\<lambda>i. entropy w (i + 16))\<rparr>))"
proof -
  obtain pw where pw: "encode_utf8 p = Inr pw"
    using assms encode_utf8_valid by blast
  have kdf: "pbkdf2_hmac_sha256 pw salt 200000 = Inr (pbkdf2_spec pw salt 200000)" for salt
    by (rule pbkdf2_hmac_sha256_spec) simp
  have len: "length (pbkdf2_spec pw salt 200000) = 32" for salt
    by (rule length_pbkdf2_spec) simp
  have given: "hash_password p (Some s) w =
             (Inr (hex s @ str ''$'' @ hex (pbkdf2_spec pw s 200000)), w)"
    using hash_password_Some [OF pw, of s w] by (simp add: kdf)
  have drawn: "hash_password p None w =
                (Inr (hex (map (entropy w) [0..<16]) @ str ''$'' @
                      hex (pbkdf2_spec pw (map (entropy w) [0..<16]) 200000)),
                 w\<lparr>entropy := (\<lambda>i. entropy w (i + 16))\<rparr>)"
    using hash_password_None [OF pw, of w] by (simp add: kdf del: upt_rec_numeral)
  have "length (map (entropy w) [0..<16]) = 16" by simp
  with pw len given drawn show ?thesis by blast
qed

text \<open>The default password with the salt 01 02 03, and with a salt drawn in the sample world.\<close>

theorem hash_password_construction_witness:
  "valid_text DEFAULT_ADMIN_password \<and>
   (\<exists>pw. encode_utf8 DEFAULT_ADMIN_password = Inr pw \<and>
      length (pbkdf2_spec pw [1, 2, 3] 200000) = 32 \<and>
      hash_password DEFAULT_ADMIN_password (Some [1, 2, 3]) fresh_world =
        (Inr (str ''010203$'' @ hex (pbkdf2_spec pw [1, 2, 3] 200000)), fresh_world) \<and>
      (\<exists>salt. salt = [0, 1, 2, 3, 4, 5, 6, 7, 8, 9, 10, 11, 12, 13, 14, 15] \<and>
         hash_password DEFAULT_ADMIN_password None fresh_world =
           (Inr (str ''000102030405060708090a0b0c0d0e0f$'' @ hex (pbkdf2_spec pw salt 200000)),
            fresh_world\<lparr>entropy := (\<lambda>i. word_of_nat (i + 16))\<rparr>)))"
proof -
  have v: "valid_text DEFAULT_ADMIN_password"
    by (simp add: valid_text_def DEFAULT_ADMIN_password_def str_def scalar_value_def)
  have s: "map (entropy fresh_world) [0..<16] = [0, 1, 2, 3, 4, 5, 6, 7, 8, 9, 10, 11, 12, 13, 14, 15]"
    by (simp add: fresh_world_def upt_rec)
  have e: "(\<lambda>i. entropy fresh_world (i + 16)) = (\<lambda>i. word_of_nat (i + 16))"
    by (simp add: fresh_world_def)
  have h1: "hex [1, 2, 3] = str ''010203''"
    by (simp add: hex_digit_def str_def)
  have h2: "hex [0, 1, 2, 3, 4, 5, 6, 7, 8, 9, 10, 11, 12, 13, 14, 15] = str ''000102030405060708090a0b0c0d0e0f''"
    by (simp add: hex_digit_def str_def)
  have c1: "str ''010203$'' = str ''010203'' @ str ''$''"
    and c2: "str ''000102030405060708090a0b0c0d0e0f$'' = str ''000102030405060708090a0b0c0d0e0f'' @ str ''$''"
    by (simp_all add: str_def)
  show ?thesis
    using hash_password_construction [OF v, of "[1, 2, 3]" fresh_world] v
    unfolding s e c1 c2 h1 [symmetric] h2 [symmetric]
    by (auto simp del: upt_rec_numeral)
qed

lemma verify_password_try_True:
  "verify_password p stored \<longleftrightarrow> verify_password_try p stored = Inr True"
  by (auto simp: verify_password_def split: sum.splits)

lemma verify_password_field_count:
  "count_list stored dollar \<noteq> 1 \<Longrightarrow> verify_password_try p stored = Inl ValueError"
proof -
  assume "count_list stored dollar \<noteq> 1"
  then have "length (split dollar stored) \<noteq> 2"
    by (simp add: length_split)
  then show ?thesis
    by (auto simp: verify_password_try_def split: list.splits)
qed

lemma verify_password_bad_salt:
  "split dollar stored = [salt_hex, hash_hex] \<Longrightarrow> fromhex salt_hex = Inl e \<Longrightarrow>
     verify_password_try p stored = Inl e"
  by (simp add: verify_password_try_def)

text \<open>
  C3. \<open>verify_password\<close> returns a boolean on every password and every stored string:
  it is true exactly when the \<open>try\<close> block returns true, and false whenever the block
  raises. In particular it is false on the empty string, on a string without \<open>$\<close>, on
  any string whose number of \<open>$\<close> is not one (so that the split does not give two
  fields), and on a string whose salt field \<open>bytes.fromhex\<close> rejects.
\<close>

theorem verify_password_never_raises:
  "(verify_password p stored \<longleftrightarrow> verify_password_try p stored = Inr True) \<and>
   (verify_password_try p stored = Inl e \<longrightarrow> \<not> verify_password p stored) \<and>
   \<not> verify_password p [] \<and>
   \<not> verify_password p (str ''not-a-valid-format'') \<and>
   (count_list stored dollar \<noteq> 1 \<longrightarrow> \<not> verify_password p stored) \<and>
   (split dollar stored = [salt_hex, hash_hex] \<and> fromhex salt_hex = Inl e
      \<longrightarrow> \<not> verify_password p stored)"
proof -
  have a: "verify_password p stored \<longleftrightarrow> verify_password_try p stored = Inr True"
    by (rule verify_password_try_True)
  have b: "verify_password_try p stored = Inl e \<longrightarrow> \<not> verify_password p stored"
    by (simp add: verify_password_def)
  have c: "\<not> verify_password p []"
    using verify_password_field_count [of "[]" p] by (simp add: verify_password_def)
  have "count_list (str ''not-a-valid-format'') dollar \<noteq> 1"
    by (simp add: str_def dollar_def)
  then have d: "\<not> verify_password p (str ''not-a-valid-format'')"
    using verify_password_field_count [of "str ''not-a-valid-format''" p]
    by (simp add: verify_password_def)
  have e: "count_list stored dollar \<noteq> 1 \<longrightarrow> \<not> verify_password p stored"
    using verify_password_field_count [of stored p] by (simp add: verify_password_def)
  have f: "split dollar stored = [salt_hex, hash_hex] \<and> fromhex salt_hex = Inl e
      \<longrightarrow> \<not> verify_password p stored"
    using verify_password_bad_salt [of stored salt_hex hash_hex e p]
    by (auto simp: verify_password_def)
  from a b c d e f show ?thesis by blast
qed

text \<open>A salt field that is not hexadecimal, and a stored string of three fields.\<close>

theorem verify_password_never_raises_witness:
  "verify_password_try (str ''pw'') (str ''zz$00'') = Inl ValueError \<and>
   \<not> verify_password (str ''pw'') (str ''zz$00'') \<and>
   count_list (str ''a$b$c'') dollar \<noteq> 1 \<and>
   \<not> verify_password (str ''pw'') (str ''a$b$c'') \<and>
   split dollar (str ''zz$00'') = [str ''zz'', str ''00''] \<and>
   fromhex (str ''zz'') = Inl ValueError"
proof -
  have s: "split dollar (str ''zz$00'') = [str ''zz'', str ''00'']"
    by (simp add: str_def dollar_def)
  have h: "fromhex (str ''zz'') = Inl ValueError"
    by (simp add: str_def fromhex_def digit_value_def is_space_def)
  have t: "verify_password_try (str ''pw'') (str ''zz$00'') = Inl ValueError"
    by (simp add: verify_password_try_def s h)
  have c: "count_list (str ''a$b$c'') dollar \<noteq> 1"
    by (simp add: str_def dollar_def)
  show ?thesis
    using verify_password_never_raises [of "str ''pw''" "str ''zz$00''" ValueError "str ''zz''" "str ''00''"]
      verify_password_never_raises [of "str ''pw''" "str ''a$b$c''" ValueError "str ''zz''" "str ''00''"]
      s h t c
    by blast
qed

section \<open>The users file\<close>

lemma hash_password_valid:
  assumes "valid_text p"
  shows "\<exists>hashed. hash_password p None w = (Inr hashed, w\<lparr>entropy := (\<lambda>i. entropy w (i + 16))\<rparr>) \<and>
           hashed \<noteq> [] \<and> verify_password p hashed"
proof -
  obtain pw where pw: "encode_utf8 p = Inr pw"
    using assms encode_utf8_valid by blast
  obtain dk where "pbkdf2_hmac_sha256 pw (map (entropy w) [0..<16]) 200000 = Inr dk"
    and "hash_password p None w =
             (Inr (hex (map (entropy w) [0..<16]) @ str ''$'' @ hex dk),
              w\<lparr>entropy := (\<lambda>i. entropy w (i + 16))\<rparr>)"
    using hash_password_None [OF pw, of w] by blast
  moreover have "hex (map (entropy w) [0..<16]) @ str ''$'' @ hex dk \<noteq> []"
    by (simp add: str_dollar)
  moreover have "verify_password p (hex (map (entropy w) [0..<16]) @ str ''$'' @ hex dk)"
    using pw \<open>pbkdf2_hmac_sha256 pw (map (entropy w) [0..<16]) 200000 = Inr dk\<close>
    by (simp add: verify_password_hash del: upt_rec_numeral)
  ultimately show ?thesis by (simp del: upt_rec_numeral)
qed

lemma ensure_users_file_present: "users_file w \<noteq> None \<Longrightarrow> ensure_users_file w = (Inr (), w)"
  by (auto simp: ensure_users_file_def)

lemma ensure_users_file_absent:
  assumes "users_file w = None"
  shows "\<exists>hashed w1. hash_password DEFAULT_ADMIN_password None w = (Inr hashed, w1) \<and>
           hashed \<noteq> [] \<and> verify_password DEFAULT_ADMIN_password hashed \<and>
           ensure_users_file w =
             (Inr (),
              w1\<lparr>users_file := Some (Json_object [DEFAULT_ADMIN_username \<mapsto> hashed]),
                 stdout := stdout w1 @
                   [str ''Created users.json with default credentials: admin / secret123'']\<rparr>)"
proof -
  have msg: "str ''Created '' @ USERS_FILE @ str '' with default credentials: '' @
                   DEFAULT_ADMIN_username @ str '' / '' @ DEFAULT_ADMIN_password =
             str ''Created users.json with default credentials: admin / secret123''"
    by (simp add: str_def USERS_FILE_def DEFAULT_ADMIN_username_def DEFAULT_ADMIN_password_def)
  obtain hashed where "hash_password DEFAULT_ADMIN_password None w =
        (Inr hashed, w\<lparr>entropy := (\<lambda>i. entropy w (i + 16))\<rparr>)"
      "hashed \<noteq> []" "verify_password DEFAULT_ADMIN_password hashed"
    using hash_password_valid [OF valid_text_default, of w] by blast
  with assms show ?thesis
    by (simp add: ensure_users_file_def msg)
qed

lemma load_users_present:
  "users_file w = Some c \<Longrightarrow>
     load_users w = (case c of Json_object users \<Rightarrow> (Inr users, w) | Malformed \<Rightarrow> (Inl JSONDecodeError, w))"
  by (simp add: load_users_def ensure_users_file_def split: file_content.splits)

lemma load_users_absent:
  assumes "users_file w = None"
  shows "\<exists>hashed w1. ensure_users_file w = (Inr (), w1) \<and>
           users_file w1 = Some (Json_object [DEFAULT_ADMIN_username \<mapsto> hashed]) \<and>
           hashed \<noteq> [] \<and> verify_password DEFAULT_ADMIN_password hashed \<and>
           load_users w = (Inr [DEFAULT_ADMIN_username \<mapsto> hashed], w1)"
proof -
  obtain hashed w1 where e: "ensure_users_file w =
             (Inr (),
              w1\<lparr>users_file := Some (Json_object [DEFAULT_ADMIN_username \<mapsto> hashed]),
                 stdout := stdout w1 @
                   [str ''Created users.json with default credentials: admin / secret123'']\<rparr>)"
    and "hashed \<noteq> []" "verify_password DEFAULT_ADMIN_password hashed"
    using ensure_users_file_absent [OF assms] by blast
  then have "users_file (snd (ensure_users_file w)) =
               Some (Json_object [DEFAULT_ADMIN_username \<mapsto> hashed])"
    and "load_users w = (Inr [DEFAULT_ADMIN_username \<mapsto> hashed], snd (ensure_users_file w))"
    by (simp_all add: load_users_def)
  with e \<open>hashed \<noteq> []\<close> \<open>verify_password DEFAULT_ADMIN_password hashed\<close>
  show ?thesis by (metis snd_conv)
qed

lemma load_users_Inr:
  assumes "load_users w = (Inr users, w1)"
  shows "users_file w1 = Some (Json_object users)" and "w1 = snd (ensure_users_file w)"
    and "users_file w \<noteq> None \<longrightarrow> w1 = w"
proof -
  show "users_file w1 = Some (Json_object users)"
    using assms by (auto simp: load_users_def split: prod.splits sum.splits option.splits file_content.splits)
  show "w1 = snd (ensure_users_file w)"
    using assms by (auto simp: load_users_def split: prod.splits sum.splits option.splits file_content.splits)
  show "users_file w \<noteq> None \<longrightarrow> w1 = w"
    using assms by (auto simp: load_users_def ensure_users_file_def split: prod.splits sum.splits option.splits file_content.splits)
qed

lemma load_users_idem:
  assumes "load_users w = (Inr users, w1)"
  shows "load_users w1 = (Inr users, w1)"
  using load_users_Inr(1) [OF assms] by (simp add: load_users_present)

text \<open>
  C5. When \<open>users.json\<close> is absent, \<open>ensure_users_file\<close> creates it with exactly one
  entry: the default admin username, mapped to the hash \<open>hash_password\<close> returns for the
  default password. A \<open>load_users\<close> after it returns that one-entry mapping, and the
  default password verifies against the stored hash. When the file exists,
  \<open>ensure_users_file\<close> changes nothing.
\<close>

theorem ensure_users_file_bootstrap:
  "(users_file w = None \<longrightarrow>
      (\<exists>hashed w0 w1.
         hash_password DEFAULT_ADMIN_password None w = (Inr hashed, w0) \<and>
         ensure_users_file w = (Inr (), w1) \<and>
         users_file w1 = Some (Json_object [DEFAULT_ADMIN_username \<mapsto> hashed]) \<and>
         dom [DEFAULT_ADMIN_username \<mapsto> hashed] = {DEFAULT_ADMIN_username} \<and>
         load_users w1 = (Inr [DEFAULT_ADMIN_username \<mapsto> hashed], w1) \<and>
         verify_password DEFAULT_ADMIN_password hashed)) \<and>
   (users_file w \<noteq> None \<longrightarrow> ensure_users_file w = (Inr (), w))"
proof (intro conjI impI)
  assume absent: "users_file w = None"
  obtain hashed w0 where h: "hash_password DEFAULT_ADMIN_password None w = (Inr hashed, w0)"
    and v: "verify_password DEFAULT_ADMIN_password hashed"
    and e: "ensure_users_file w =
             (Inr (),
              w0\<lparr>users_file := Some (Json_object [DEFAULT_ADMIN_username \<mapsto> hashed]),
                 stdout := stdout w0 @
                   [str ''Created users.json with default credentials: admin / secret123'']\<rparr>)"
    using ensure_users_file_absent [OF absent] by blast
  define w1 where "w1 = w0\<lparr>users_file := Some (Json_object [DEFAULT_ADMIN_username \<mapsto> hashed]),
                 stdout := stdout w0 @
                   [str ''Created users.json with default credentials: admin / secret123'']\<rparr>"
  have f: "users_file w1 = Some (Json_object [DEFAULT_ADMIN_username \<mapsto> hashed])"
    by (simp add: w1_def)
  have l: "load_users w1 = (Inr [DEFAULT_ADMIN_username \<mapsto> hashed], w1)"
    using f by (simp add: load_users_present)
  have d: "dom [DEFAULT_ADMIN_username \<mapsto> hashed] = {DEFAULT_ADMIN_username}"
    by simp
  from h v e f l d show "\<exists>hashed w0 w1.
         hash_password DEFAULT_ADMIN_password None w = (Inr hashed, w0) \<and>
         ensure_users_file w = (Inr (), w1) \<and>
         users_file w1 = Some (Json_object [DEFAULT_ADMIN_username \<mapsto> hashed]) \<and>
         dom [DEFAULT_ADMIN_username \<mapsto> hashed] = {DEFAULT_ADMIN_username} \<and>
         load_users w1 = (Inr [DEFAULT_ADMIN_username \<mapsto> hashed], w1) \<and>
         verify_password DEFAULT_ADMIN_password hashed"
    unfolding w1_def by blast
next
  assume "users_file w \<noteq> None"
  then show "ensure_users_file w = (Inr (), w)"
    by (rule ensure_users_file_present)
qed

text \<open>The sample world, where the file is absent, and the same world with a file in place.\<close>

theorem ensure_users_file_bootstrap_witness:
  "users_file fresh_world = None \<and>
   (\<exists>hashed w0 w1.
      hash_password DEFAULT_ADMIN_password None fresh_world = (Inr hashed, w0) \<and>
      ensure_users_file fresh_world = (Inr (), w1) \<and>
      users_file w1 = Some (Json_object [DEFAULT_ADMIN_username \<mapsto> hashed]) \<and>
      load_users w1 = (Inr [DEFAULT_ADMIN_username \<mapsto> hashed], w1) \<and>
      verify_password DEFAULT_ADMIN_password hashed) \<and>
   users_file (fresh_world\<lparr>users_file := Some Malformed\<rparr>) \<noteq> None \<and>
   ensure_users_file (fresh_world\<lparr>users_file := Some Malformed\<rparr>) =
     (Inr (), fresh_world\<lparr>users_file := Some Malformed\<rparr>)"
proof -
  have a: "users_file fresh_world = None"
    by (simp add: fresh_world_def)
  have p: "users_file (fresh_world\<lparr>users_file := Some Malformed\<rparr>) \<noteq> None"
    by simp
  have x: "\<exists>hashed w0 w1.
      hash_password DEFAULT_ADMIN_password None fresh_world = (Inr hashed, w0) \<and>
      ensure_users_file fresh_world = (Inr (), w1) \<and>
      users_file w1 = Some (Json_object [DEFAULT_ADMIN_username \<mapsto> hashed]) \<and>
      load_users w1 = (Inr [DEFAULT_ADMIN_username \<mapsto> hashed], w1) \<and>
      verify_password DEFAULT_ADMIN_password hashed"
    using ensure_users_file_bootstrap [of fresh_world, THEN conjunct1, THEN mp, OF a]
    by (elim exE conjE) (intro exI conjI, assumption+)
  have y: "ensure_users_file (fresh_world\<lparr>users_file := Some Malformed\<rparr>) =
     (Inr (), fresh_world\<lparr>users_file := Some Malformed\<rparr>)"
    by (rule ensure_users_file_bootstrap
          [of "fresh_world\<lparr>users_file := Some Malformed\<rparr>", THEN conjunct2, THEN mp, OF p])
  from a x p y show ?thesis by (intro conjI)
qed



section \<open>Login and change of password\<close>

lemma verify_password_empty: "\<not> verify_password p []"
  by (simp add: verify_password_def verify_password_try_def)

lemma do_login_loaded:
  assumes "load_users w = (Inr users, w1)"
  shows "do_login session username password next w =
     (if \<exists>stored. users username = Some stored \<and> verify_password password stored
      then (Inr (RedirectResponse
                   (case next of None \<Rightarrow> str ''/'' | Some n \<Rightarrow> if n = [] then str ''/'' else n)
                   303),
            session(str ''user'' \<mapsto> username), w1)
      else (Inr (invalid_credentials next), session, w1))"
  using assms by (auto simp: do_login_def verify_password_empty split: option.splits)

lemma change_password_loaded:
  assumes "get_current_user session = Some username" and "load_users w = (Inr users, w1)"
  shows "change_password session current new_password confirm w =
     (if \<not> (\<exists>stored. users username = Some stored \<and> verify_password current stored) then
        (Inr (change_password_page username (Some (str ''Current password incorrect'')) None), w1)
      else if new_password \<noteq> confirm then
        (Inr (change_password_page username (Some (str ''Passwords do not match'')) None), w1)
      else
        (case hash_password new_password None w1 of
           (Inl e, w2) \<Rightarrow> (Inl e, w2)
         | (Inr hashed, w2) \<Rightarrow>
            (Inr (change_password_page username None (Some (str ''Password updated''))),
             save_users (users(username \<mapsto> hashed)) w2)))"
  using assms by (auto simp: change_password_def verify_password_empty split: option.splits)

lemma change_password_success:
  assumes "get_current_user session = Some username" and "load_users w = (Inr users, w1)"
    and "users username = Some stored" and "verify_password current stored"
    and "new_password = confirm" and "encode_utf8 new_password = Inr nw"
  shows "change_password session current new_password confirm w =
           (Inr (change_password_page username None (Some (str ''Password updated''))),
            save_users
              (users(username \<mapsto>
                 hex (map (entropy w1) [0..<16]) @ str ''$'' @
                 hex (pbkdf2_spec nw (map (entropy w1) [0..<16]) 200000)))
              (w1\<lparr>entropy := (\<lambda>i. entropy w1 (i + 16))\<rparr>))"
proof -
  have kdf: "pbkdf2_hmac_sha256 nw (map (entropy w1) [0..<16]) 200000 =
               Inr (pbkdf2_spec nw (map (entropy w1) [0..<16]) 200000)"
    by (rule pbkdf2_hmac_sha256_spec) simp
  have "hash_password new_password None w1 =
          (Inr (hex (map (entropy w1) [0..<16]) @ str ''$'' @
                hex (pbkdf2_spec nw (map (entropy w1) [0..<16]) 200000)),
           w1\<lparr>entropy := (\<lambda>i. entropy w1 (i + 16))\<rparr>)"
    using hash_password_None [OF assms(6), of w1] by (simp add: kdf del: upt_rec_numeral)
  then show ?thesis
    using assms(3,4,5) by (simp add: change_password_loaded [OF assms(1,2)] del: upt_rec_numeral)
qed

lemma verify_password_fresh:
  "verify_password q (hex salt @ str ''$'' @ hex (pbkdf2_spec nw salt 200000)) \<longleftrightarrow>
     (\<exists>qw. encode_utf8 q = Inr qw \<and> pbkdf2_spec qw salt 200000 = pbkdf2_spec nw salt 200000)"
proof -
  have "pbkdf2_hmac_sha256 qw salt 200000 = Inr (pbkdf2_spec qw salt 200000)" for qw
    by (rule pbkdf2_hmac_sha256_spec) simp
  then show ?thesis by (simp add: verify_password_hash)
qed

lemma load_users_saved: "load_users (save_users users w) = (Inr users, save_users users w)"
  by (simp add: load_users_present save_users_def)

lemma bootstrapped:
  "\<exists>hashed. load_users bootstrapped_world = (Inr [DEFAULT_ADMIN_username \<mapsto> hashed], bootstrapped_world) \<and>
     verify_password DEFAULT_ADMIN_password hashed"
proof -
  have "users_file fresh_world = None" by (simp add: fresh_world_def)
  then obtain hashed w1 where "load_users fresh_world = (Inr [DEFAULT_ADMIN_username \<mapsto> hashed], w1)"
    and "verify_password DEFAULT_ADMIN_password hashed"
    using load_users_absent by blast
  then show ?thesis
    using load_users_idem [of fresh_world "[DEFAULT_ADMIN_username \<mapsto> hashed]" w1]
    by (auto simp: bootstrapped_world_def)
qed

lemma admin_logged_in: "get_current_user admin_session = Some DEFAULT_ADMIN_username"
  by (simp add: get_current_user_def admin_session_def)

lemma encode_default:
  "encode_utf8 DEFAULT_ADMIN_password = Inr [115, 101, 99, 114, 101, 116, 49, 50, 51]"
  by (simp add: DEFAULT_ADMIN_password_def str_def utf8_char_def)

lemma length_hex: "length (hex bs) = 2 * length bs"
  by (induction bs) simp_all

lemma verify_password_hash_length:
  assumes "split dollar stored = [salt_hex, hash_hex]" and "length hash_hex \<noteq> 64"
  shows "\<not> verify_password p stored"
proof
  assume "verify_password p stored"
  then obtain salt pw dk where "hash_hex = hex dk" and "pbkdf2_hmac_sha256 pw salt 200000 = Inr dk"
    using assms(1) by (auto simp: verify_password_iff)
  moreover have "length dk = 32"
    using pbkdf2_hmac_sha256_ok [of 200000 pw salt] calculation(2) by auto
  ultimately show False using assms(2) by (simp add: length_hex)
qed

lemma verify_password_bob: "\<not> verify_password p (str ''00$00'')"
proof -
  have "split dollar (str ''00$00'') = [str ''00'', str ''00'']"
    by (simp add: str_def dollar_def)
  then show ?thesis
    by (rule verify_password_hash_length) (simp add: str_def)
qed

text \<open>
  C8. Once \<open>load_users\<close> has returned the store, \<open>do_login\<close> succeeds (a redirect, and
  the session bound to the username) when the username is in the store and the
  password verifies against its stored hash. When the username is absent, and when it
  is present with a password that does not verify, the outcome is the same
  \<open>Invalid credentials\<close> page and the same unchanged session; that page is returned
  exactly when the login did not succeed.
\<close>

theorem do_login_outcome:
  assumes "load_users w = (Inr users, w1)"
  shows "((\<exists>stored. users username = Some stored \<and> verify_password password stored) \<longrightarrow>
            do_login session username password next w =
              (Inr (RedirectResponse
                     (case next of None \<Rightarrow> str ''/'' | Some n \<Rightarrow> if n = [] then str ''/'' else n)
                     303),
               session(str ''user'' \<mapsto> username), w1) \<and>
            get_current_user (session(str ''user'' \<mapsto> username)) = Some username) \<and>
         (users username = None \<longrightarrow>
            do_login session username password next w =
              (Inr (invalid_credentials next), session, w1)) \<and>
         ((\<exists>stored. users username = Some stored \<and> \<not> verify_password password stored) \<longrightarrow>
            do_login session username password next w =
              (Inr (invalid_credentials next), session, w1)) \<and>
         (fst (do_login session username password next w) = Inr (invalid_credentials next) \<longleftrightarrow>
            \<not> (\<exists>stored. users username = Some stored \<and> verify_password password stored))"
  by (auto simp: do_login_loaded [OF assms] get_current_user_def invalid_credentials_def)

text \<open>
  An unknown user and a known user with a wrong password get the same answer; the
  default account logs in to the bootstrapped world with the default password.
\<close>

theorem do_login_outcome_witness:
  "load_users (save_users [str ''bob'' \<mapsto> str ''00$00''] fresh_world) =
     (Inr [str ''bob'' \<mapsto> str ''00$00''], save_users [str ''bob'' \<mapsto> str ''00$00''] fresh_world) \<and>
   do_login Map.empty (str ''eve'') (str ''pw'') None
       (save_users [str ''bob'' \<mapsto> str ''00$00''] fresh_world) =
     (Inr (invalid_credentials None), Map.empty,
      save_users [str ''bob'' \<mapsto> str ''00$00''] fresh_world) \<and>
   do_login Map.empty (str ''bob'') (str ''pw'') None
       (save_users [str ''bob'' \<mapsto> str ''00$00''] fresh_world) =
     (Inr (invalid_credentials None), Map.empty,
      save_users [str ''bob'' \<mapsto> str ''00$00''] fresh_world) \<and>
   (\<exists>hashed.
      load_users bootstrapped_world =
        (Inr [DEFAULT_ADMIN_username \<mapsto> hashed], bootstrapped_world) \<and>
      verify_password DEFAULT_ADMIN_password hashed) \<and>
   do_login Map.empty DEFAULT_ADMIN_username DEFAULT_ADMIN_password None bootstrapped_world =
     (Inr (RedirectResponse (str ''/'') 303),
      [str ''user'' \<mapsto> DEFAULT_ADMIN_username], bootstrapped_world)"
proof -
  define w where "w = save_users [str ''bob'' \<mapsto> str ''00$00''] fresh_world"
  have l: "load_users w = (Inr [str ''bob'' \<mapsto> str ''00$00''], w)"
    unfolding w_def by (rule load_users_saved)
  have ne: "str ''eve'' \<noteq> str ''bob''"
    by (simp add: str_def)
  have absent: "[str ''bob'' \<mapsto> str ''00$00''] (str ''eve'') = None"
    using ne by simp
  have bad: "\<not> verify_password (str ''pw'') (str ''00$00'')"
    by (rule verify_password_bob)
  have present: "\<exists>stored. [str ''bob'' \<mapsto> str ''00$00''] (str ''bob'') = Some stored \<and>
                   \<not> verify_password (str ''pw'') stored"
    using bad by simp
  have a: "do_login Map.empty (str ''eve'') (str ''pw'') None w =
             (Inr (invalid_credentials None), Map.empty, w)"
    using do_login_outcome [OF l, of "str ''eve''" "str ''pw''" Map.empty None] absent by blast
  have b: "do_login Map.empty (str ''bob'') (str ''pw'') None w =
             (Inr (invalid_credentials None), Map.empty, w)"
    using do_login_outcome [OF l, of "str ''bob''" "str ''pw''" Map.empty None] present by blast
  obtain hashed where h: "load_users bootstrapped_world =
        (Inr [DEFAULT_ADMIN_username \<mapsto> hashed], bootstrapped_world)"
    and v: "verify_password DEFAULT_ADMIN_password hashed"
    using bootstrapped by blast
  have ok: "\<exists>stored. [DEFAULT_ADMIN_username \<mapsto> hashed] DEFAULT_ADMIN_username = Some stored \<and>
               verify_password DEFAULT_ADMIN_password stored"
    using v by simp
  have c: "do_login Map.empty DEFAULT_ADMIN_username DEFAULT_ADMIN_password None bootstrapped_world =
     (Inr (RedirectResponse (str ''/'') 303),
      [str ''user'' \<mapsto> DEFAULT_ADMIN_username], bootstrapped_world)"
    using do_login_outcome [OF h, of DEFAULT_ADMIN_username DEFAULT_ADMIN_password Map.empty None] ok
    by simp
  from l a b h v c show ?thesis unfolding w_def by blast
qed

lemma bob_logged_in: "get_current_user bob_session = Some (str ''bob'')"
  by (simp add: get_current_user_def bob_session_def)

lemma bob_not_admin: "str ''bob'' \<noteq> DEFAULT_ADMIN_username"
  by (simp add: str_def DEFAULT_ADMIN_username_def)

lemma two_users:
  "\<exists>hashed. load_users two_user_world =
              (Inr [DEFAULT_ADMIN_username \<mapsto> hashed, str ''bob'' \<mapsto> str ''00$00''],
               two_user_world) \<and>
            verify_password DEFAULT_ADMIN_password hashed"
proof -
  have "users_file fresh_world = None" by (simp add: fresh_world_def)
  then obtain hashed w1 where l: "load_users fresh_world = (Inr [DEFAULT_ADMIN_username \<mapsto> hashed], w1)"
    and v: "verify_password DEFAULT_ADMIN_password hashed"
    using load_users_absent by blast
  have "two_user_world =
          save_users [DEFAULT_ADMIN_username \<mapsto> hashed, str ''bob'' \<mapsto> str ''00$00''] w1"
    by (simp add: two_user_world_def l)
  then show ?thesis using v load_users_saved by metis
qed

text \<open>
  C6. For a logged-in username and the store \<open>load_users\<close> returned: when the current
  password does not verify against the stored hash (or the username has none),
  \<open>change_password\<close> answers \<open>Current password incorrect\<close>; when it verifies and the
  new password differs from the confirmation, it answers \<open>Passwords do not match\<close>.
  In both cases the world is the one \<open>load_users\<close> left: the file holds exactly the
  loaded mapping, and when the file existed before the call nothing changed at all.
\<close>

theorem change_password_rejects:
  assumes "get_current_user session = Some username" and "load_users w = (Inr users, w1)"
  shows "(\<not> (\<exists>stored. users username = Some stored \<and> verify_password current stored) \<longrightarrow>
            change_password session current new_password confirm w =
              (Inr (change_password_page username (Some (str ''Current password incorrect'')) None),
               w1)) \<and>
         ((\<exists>stored. users username = Some stored \<and> verify_password current stored) \<and>
            new_password \<noteq> confirm \<longrightarrow>
            change_password session current new_password confirm w =
              (Inr (change_password_page username (Some (str ''Passwords do not match'')) None),
               w1)) \<and>
         users_file w1 = Some (Json_object users) \<and>
         (users_file w \<noteq> None \<longrightarrow> w1 = w)"
proof (intro conjI impI)
  show "users_file w1 = Some (Json_object users)"
    by (rule load_users_Inr(1) [OF assms(2)])
  show "w1 = w" if "users_file w \<noteq> None"
    using load_users_Inr(3) [OF assms(2)] that by blast
qed (simp_all add: change_password_loaded [OF assms])

text \<open>
  Bob, whose stored hash no password matches, and the default account with a
  confirmation that differs.
\<close>

theorem change_password_rejects_witness:
  "get_current_user bob_session = Some (str ''bob'') \<and>
   (\<exists>hashed.
      load_users two_user_world =
        (Inr [DEFAULT_ADMIN_username \<mapsto> hashed, str ''bob'' \<mapsto> str ''00$00''],
         two_user_world)) \<and>
   \<not> verify_password (str ''pw'') (str ''00$00'') \<and>
   change_password bob_session (str ''pw'') (str ''a'') (str ''a'') two_user_world =
     (Inr (change_password_page (str ''bob'')
             (Some (str ''Current password incorrect'')) None),
      two_user_world) \<and>
   get_current_user admin_session = Some DEFAULT_ADMIN_username \<and>
   (\<exists>hashed.
      load_users bootstrapped_world =
        (Inr [DEFAULT_ADMIN_username \<mapsto> hashed], bootstrapped_world) \<and>
      verify_password DEFAULT_ADMIN_password hashed \<and>
      users_file bootstrapped_world = Some (Json_object [DEFAULT_ADMIN_username \<mapsto> hashed])) \<and>
   str ''a'' \<noteq> str ''b'' \<and>
   change_password admin_session DEFAULT_ADMIN_password (str ''a'') (str ''b'') bootstrapped_world =
     (Inr (change_password_page DEFAULT_ADMIN_username
             (Some (str ''Passwords do not match'')) None),
      bootstrapped_world)"
proof -
  obtain h2 where l2: "load_users two_user_world =
        (Inr [DEFAULT_ADMIN_username \<mapsto> h2, str ''bob'' \<mapsto> str ''00$00''], two_user_world)"
    using two_users by blast
  have bad: "\<not> verify_password (str ''pw'') (str ''00$00'')"
    by (rule verify_password_bob)
  have no: "\<not> (\<exists>stored. [DEFAULT_ADMIN_username \<mapsto> h2, str ''bob'' \<mapsto> str ''00$00'']
                    (str ''bob'') = Some stored \<and> verify_password (str ''pw'') stored)"
    using bad by simp
  have a: "change_password bob_session (str ''pw'') (str ''a'') (str ''a'') two_user_world =
     (Inr (change_password_page (str ''bob'')
             (Some (str ''Current password incorrect'')) None),
      two_user_world)"
    using change_password_rejects [OF bob_logged_in l2, of "str ''pw''" "str ''a''" "str ''a''",
        THEN conjunct1] no by blast
  obtain hashed where h: "load_users bootstrapped_world =
        (Inr [DEFAULT_ADMIN_username \<mapsto> hashed], bootstrapped_world)"
    and v: "verify_password DEFAULT_ADMIN_password hashed"
    using bootstrapped by blast
  have ne: "str ''a'' \<noteq> str ''b''"
    by (simp add: str_def)
  note r = change_password_rejects [OF admin_logged_in h]
  have yes: "(\<exists>stored. [DEFAULT_ADMIN_username \<mapsto> hashed] DEFAULT_ADMIN_username = Some stored \<and>
                  verify_password DEFAULT_ADMIN_password stored) \<and> str ''a'' \<noteq> str ''b''"
    using v ne by simp
  have b: "change_password admin_session DEFAULT_ADMIN_password (str ''a'') (str ''b'') bootstrapped_world =
     (Inr (change_password_page DEFAULT_ADMIN_username
             (Some (str ''Passwords do not match'')) None),
      bootstrapped_world)"
    using r [of DEFAULT_ADMIN_password "str ''a''" "str ''b''", THEN conjunct2, THEN conjunct1] yes
    by blast
  have f: "users_file bootstrapped_world = Some (Json_object [DEFAULT_ADMIN_username \<mapsto> hashed])"
    using r [of DEFAULT_ADMIN_password "str ''a''" "str ''b''"] by blast
  from bob_logged_in l2 bad a admin_logged_in h v f ne b show ?thesis by blast
qed

lemma encode_utf8_append:
  "encode_utf8 a = Inr x \<Longrightarrow> encode_utf8 b = Inr y \<Longrightarrow> encode_utf8 (a @ b) = Inr (x @ y)"
  by (induction a arbitrary: x) (auto split: sum.splits)

lemma encode_default_nul:
  "encode_utf8 (DEFAULT_ADMIN_password @ [0]) = Inr ([115, 101, 99, 114, 101, 116, 49, 50, 51] @ [0])"
  by (rule encode_utf8_append [OF encode_default]) (simp add: utf8_char_def)

lemma hmac_key_nul:
  assumes "length key < 64"
  shows "hmac_key (key @ [0]) = hmac_key key"
proof -
  have "64 - length key = Suc (63 - length key)"
    using assms by simp
  then have "replicate (64 - length key) (0 :: byte) = 0 # replicate (63 - length key) 0"
    by (simp only: replicate_Suc)
  then show ?thesis
    using assms by (simp add: hmac_key_def Let_def)
qed

lemma hmac_sha256_nul: "length key < 64 \<Longrightarrow> hmac_sha256 (key @ [0]) msg = hmac_sha256 key msg"
  by (simp add: hmac_sha256_def hmac_key_nul)

lemma pbkdf2_chain_nul:
  "length key < 64 \<Longrightarrow> pbkdf2_chain (key @ [0]) n u acc = pbkdf2_chain key n u acc"
  by (induction n arbitrary: u acc) (simp_all add: hmac_sha256_nul)

lemma pbkdf2_nul:
  "length key < 64 \<Longrightarrow> pbkdf2_hmac_sha256 (key @ [0]) salt c = pbkdf2_hmac_sha256 key salt c"
  by (simp add: pbkdf2_hmac_sha256_def hmac_sha256_nul pbkdf2_chain_nul)

lemma verify_password_nul:
  assumes "encode_utf8 p = Inr pw" and "length pw < 64"
  shows "verify_password (p @ [0]) stored \<longleftrightarrow> verify_password p stored"
proof -
  have "encode_utf8 (p @ [0]) = Inr (pw @ [0])"
    by (rule encode_utf8_append [OF assms(1)]) (simp add: utf8_char_def)
  with assms show ?thesis
    by (simp add: verify_password_iff pbkdf2_nul)
qed

lemma pbkdf2_spec_nul:
  assumes "length key < 64" and "0 < c"
  shows "pbkdf2_spec (key @ [0]) salt c = pbkdf2_spec key salt c"
proof -
  have "Inr (pbkdf2_spec (key @ [0]) salt c) = pbkdf2_hmac_sha256 (key @ [0]) salt c"
    using assms(2) by (simp add: pbkdf2_hmac_sha256_spec)
  also have "\<dots> = pbkdf2_hmac_sha256 key salt c"
    using assms(1) by (rule pbkdf2_nul)
  also have "\<dots> = Inr (pbkdf2_spec key salt c)"
    using assms(2) by (simp add: pbkdf2_hmac_sha256_spec)
  finally show ?thesis by simp
qed

lemma login_after_change:
  assumes "get_current_user session = Some username" and "load_users w = (Inr users, w1)"
    and "users username = Some stored" and "verify_password current stored"
    and "encode_utf8 new_password = Inr nw" and "encode_utf8 current = Inr cw"
    and "pbkdf2_spec cw (map (entropy w1) [0..<16]) 200000 =
         pbkdf2_spec nw (map (entropy w1) [0..<16]) 200000"
  shows "fst (change_password session current new_password new_password w) =
           Inr (change_password_page username None (Some (str ''Password updated'')))"
    and "fst (do_login Map.empty username current None
               (snd (change_password session current new_password new_password w))) =
           Inr (RedirectResponse (str ''/'') 303)"
proof -
  define hashed where "hashed = hex (map (entropy w1) [0..<16]) @ str ''$'' @
                 hex (pbkdf2_spec nw (map (entropy w1) [0..<16]) 200000)"
  define w3 where "w3 = save_users (users(username \<mapsto> hashed))
              (w1\<lparr>entropy := (\<lambda>i. entropy w1 (i + 16))\<rparr>)"
  have cp: "change_password session current new_password new_password w =
           (Inr (change_password_page username None (Some (str ''Password updated''))), w3)"
    using change_password_success [OF assms(1-4) refl assms(5)]
    unfolding w3_def hashed_def .
  then show "fst (change_password session current new_password new_password w) =
           Inr (change_password_page username None (Some (str ''Password updated'')))"
    by simp
  have lu: "load_users w3 = (Inr (users(username \<mapsto> hashed)), w3)"
    unfolding w3_def by (rule load_users_saved)
  have "verify_password current hashed"
    unfolding hashed_def using assms(6,7) by (simp only: verify_password_fresh) blast
  then have "fst (do_login Map.empty username current None w3) =
               Inr (RedirectResponse (str ''/'') 303)"
    by (simp add: do_login_loaded [OF lu])
  then show "fst (do_login Map.empty username current None
               (snd (change_password session current new_password new_password w))) =
           Inr (RedirectResponse (str ''/'') 303)"
    by (simp add: cp)
qed

text \<open>
  C7, as amended. When the current password verifies, the new password equals the
  confirmation and is well-formed text, \<open>change_password\<close> replaces the user's entry
  by \<open>hash_password new_password\<close> with a salt newly drawn from the random source (the
  next 16 bytes of the tape, whatever the stored hash was) and writes the whole mapping
  with \<open>save_users\<close>. Afterwards the new password verifies against the new stored hash
  and logs in. The old password verifies against it exactly when it derives the same
  key as the new password under the new salt, and login with the old password fails
  exactly when it does not.
\<close>

theorem change_password_installs_fresh_hash:
  assumes "get_current_user session = Some username" and "load_users w = (Inr users, w1)"
    and "users username = Some stored" and "verify_password current stored"
    and "new_password = confirm" and "valid_text new_password"
  shows "\<exists>nw salt hashed w3.
           encode_utf8 new_password = Inr nw \<and>
           salt = map (entropy w1) [0..<16] \<and>
           hashed = hex salt @ str ''$'' @ hex (pbkdf2_spec nw salt 200000) \<and>
           hash_password new_password None w1 =
             (Inr hashed, w1\<lparr>entropy := (\<lambda>i. entropy w1 (i + 16))\<rparr>) \<and>
           w3 = save_users (users(username \<mapsto> hashed))
                  (w1\<lparr>entropy := (\<lambda>i. entropy w1 (i + 16))\<rparr>) \<and>
           change_password session current new_password confirm w =
             (Inr (change_password_page username None (Some (str ''Password updated''))), w3) \<and>
           users_file w3 = Some (Json_object (users(username \<mapsto> hashed))) \<and>
           load_users w3 = (Inr (users(username \<mapsto> hashed)), w3) \<and>
           verify_password new_password hashed \<and>
           do_login s username new_password next w3 =
             (Inr (RedirectResponse
                    (case next of None \<Rightarrow> str ''/'' | Some n \<Rightarrow> if n = [] then str ''/'' else n)
                    303),
              s(str ''user'' \<mapsto> username), w3) \<and>
           (verify_password current hashed \<longleftrightarrow>
              (\<exists>cw. encode_utf8 current = Inr cw \<and>
                    pbkdf2_spec cw salt 200000 = pbkdf2_spec nw salt 200000)) \<and>
           (fst (do_login s username current next w3) = Inr (invalid_credentials next) \<longleftrightarrow>
              \<not> verify_password current hashed)"
proof -
  obtain nw where nw: "encode_utf8 new_password = Inr nw"
    using assms(6) encode_utf8_valid by blast
  define salt where "salt = map (entropy w1) [0..<16]"
  define hashed where "hashed = hex salt @ str ''$'' @ hex (pbkdf2_spec nw salt 200000)"
  define w2 where "w2 = w1\<lparr>entropy := (\<lambda>i. entropy w1 (i + 16))\<rparr>"
  define w3 where "w3 = save_users (users(username \<mapsto> hashed)) w2"
  have kdf: "pbkdf2_hmac_sha256 nw salt 200000 = Inr (pbkdf2_spec nw salt 200000)"
    by (rule pbkdf2_hmac_sha256_spec) simp
  have hp: "hash_password new_password None w1 = (Inr hashed, w2)"
    using hash_password_None [OF nw, of w1] kdf unfolding salt_def hashed_def w2_def
    by (simp del: upt_rec_numeral)
  have cp: "change_password session current new_password confirm w =
             (Inr (change_password_page username None (Some (str ''Password updated''))), w3)"
    using change_password_success [OF assms(1-5) nw]
    unfolding w3_def w2_def hashed_def salt_def .
  have uf: "users_file w3 = Some (Json_object (users(username \<mapsto> hashed)))"
    by (simp add: w3_def save_users_def)
  have lu: "load_users w3 = (Inr (users(username \<mapsto> hashed)), w3)"
    unfolding w3_def by (rule load_users_saved)
  have vn: "verify_password new_password hashed"
    unfolding hashed_def using nw by (auto simp: verify_password_fresh)
  have vc: "verify_password current hashed \<longleftrightarrow>
              (\<exists>cw. encode_utf8 current = Inr cw \<and>
                    pbkdf2_spec cw salt 200000 = pbkdf2_spec nw salt 200000)"
    unfolding hashed_def by (rule verify_password_fresh)
  have ln: "do_login s username new_password next w3 =
             (Inr (RedirectResponse
                    (case next of None \<Rightarrow> str ''/'' | Some n \<Rightarrow> if n = [] then str ''/'' else n)
                    303),
              s(str ''user'' \<mapsto> username), w3)"
    using vn by (simp add: do_login_loaded [OF lu])
  have lc: "fst (do_login s username current next w3) = Inr (invalid_credentials next) \<longleftrightarrow>
              \<not> verify_password current hashed"
    by (simp add: do_login_loaded [OF lu] invalid_credentials_def)
  from nw hp cp uf lu vn ln vc lc show ?thesis
    unfolding salt_def [symmetric] hashed_def [symmetric] w2_def [symmetric] w3_def [symmetric]
    using salt_def hashed_def w3_def w2_def by blast
qed

text \<open>
  The claim as stated fails: \<open>change_password\<close> accepts a new password equal to the
  current one, and then the old password still logs in. The same happens for a new
  password that differs from the old one by a trailing NUL, since HMAC pads its key
  with zero bytes.
\<close>

theorem old_password_still_accepted:
  "fst (change_password admin_session DEFAULT_ADMIN_password
          DEFAULT_ADMIN_password DEFAULT_ADMIN_password bootstrapped_world) =
     Inr (change_password_page DEFAULT_ADMIN_username None (Some (str ''Password updated''))) \<and>
   fst (do_login Map.empty DEFAULT_ADMIN_username DEFAULT_ADMIN_password None
          (snd (change_password admin_session DEFAULT_ADMIN_password
                  DEFAULT_ADMIN_password DEFAULT_ADMIN_password bootstrapped_world))) =
     Inr (RedirectResponse (str ''/'') 303) \<and>
   DEFAULT_ADMIN_password @ [0] \<noteq> DEFAULT_ADMIN_password \<and>
   fst (change_password admin_session DEFAULT_ADMIN_password
          (DEFAULT_ADMIN_password @ [0]) (DEFAULT_ADMIN_password @ [0]) bootstrapped_world) =
     Inr (change_password_page DEFAULT_ADMIN_username None (Some (str ''Password updated''))) \<and>
   fst (do_login Map.empty DEFAULT_ADMIN_username DEFAULT_ADMIN_password None
          (snd (change_password admin_session DEFAULT_ADMIN_password
                  (DEFAULT_ADMIN_password @ [0]) (DEFAULT_ADMIN_password @ [0])
                  bootstrapped_world))) =
     Inr (RedirectResponse (str ''/'') 303)"
proof -
  obtain hashed where l: "load_users bootstrapped_world =
        (Inr [DEFAULT_ADMIN_username \<mapsto> hashed], bootstrapped_world)"
    and v: "verify_password DEFAULT_ADMIN_password hashed"
    using bootstrapped by blast
  have u: "[DEFAULT_ADMIN_username \<mapsto> hashed] DEFAULT_ADMIN_username = Some hashed"
    by simp
  note same = login_after_change [OF admin_logged_in l u v encode_default encode_default refl]
  have "pbkdf2_spec [115, 101, 99, 114, 101, 116, 49, 50, 51]
          (map (entropy bootstrapped_world) [0..<16]) 200000 =
        pbkdf2_spec ([115, 101, 99, 114, 101, 116, 49, 50, 51] @ [0])
          (map (entropy bootstrapped_world) [0..<16]) 200000"
    by (rule pbkdf2_spec_nul [symmetric]) simp_all
  note nul = login_after_change [OF admin_logged_in l u v encode_default_nul encode_default this]
  have "DEFAULT_ADMIN_password @ [0] \<noteq> DEFAULT_ADMIN_password"
    by simp
  with same nul show ?thesis by (intro conjI)
qed

lemma valid_text_new: "valid_text (str ''NewPass!23'')"
  by (simp add: valid_text_def str_def scalar_value_def)

text \<open>
  The scenario of the specification: the default account, in the bootstrapped world,
  changes its password to \<open>NewPass!23\<close> and logs in with it.
\<close>

theorem change_password_installs_fresh_hash_witness:
  "get_current_user admin_session = Some DEFAULT_ADMIN_username \<and>
   valid_text (str ''NewPass!23'') \<and>
   (\<exists>stored.
      load_users bootstrapped_world =
        (Inr [DEFAULT_ADMIN_username \<mapsto> stored], bootstrapped_world) \<and>
      verify_password DEFAULT_ADMIN_password stored) \<and>
   (\<exists>hashed w3.
      change_password admin_session DEFAULT_ADMIN_password
          (str ''NewPass!23'') (str ''NewPass!23'') bootstrapped_world =
        (Inr (change_password_page DEFAULT_ADMIN_username None (Some (str ''Password updated''))),
         w3) \<and>
      users_file w3 = Some (Json_object [DEFAULT_ADMIN_username \<mapsto> hashed]) \<and>
      verify_password (str ''NewPass!23'') hashed \<and>
      do_login Map.empty DEFAULT_ADMIN_username (str ''NewPass!23'') None w3 =
        (Inr (RedirectResponse (str ''/'') 303), [str ''user'' \<mapsto> DEFAULT_ADMIN_username], w3))"
proof -
  obtain stored where l: "load_users bootstrapped_world =
        (Inr [DEFAULT_ADMIN_username \<mapsto> stored], bootstrapped_world)"
    and v: "verify_password DEFAULT_ADMIN_password stored"
    using bootstrapped by blast
  have u: "[DEFAULT_ADMIN_username \<mapsto> stored] DEFAULT_ADMIN_username = Some stored"
    by simp
  obtain hashed w3 where
    c: "change_password admin_session DEFAULT_ADMIN_password
          (str ''NewPass!23'') (str ''NewPass!23'') bootstrapped_world =
        (Inr (change_password_page DEFAULT_ADMIN_username None (Some (str ''Password updated''))),
         w3)"
    and f: "users_file w3 = Some (Json_object ([DEFAULT_ADMIN_username \<mapsto> stored]
              (DEFAULT_ADMIN_username \<mapsto> hashed)))"
    and n: "verify_password (str ''NewPass!23'') hashed"
    and d: "do_login Map.empty DEFAULT_ADMIN_username (str ''NewPass!23'') None w3 =
        (Inr (RedirectResponse (case None of None \<Rightarrow> str ''/'' | Some n \<Rightarrow> if n = [] then str ''/'' else n) 303),
         Map.empty(str ''user'' \<mapsto> DEFAULT_ADMIN_username), w3)"
    using change_password_installs_fresh_hash
      [OF admin_logged_in l u v refl valid_text_new, of Map.empty None]
    by blast
  from f have f': "users_file w3 = Some (Json_object [DEFAULT_ADMIN_username \<mapsto> hashed])"
    by simp
  from d have d': "do_login Map.empty DEFAULT_ADMIN_username (str ''NewPass!23'') None w3 =
        (Inr (RedirectResponse (str ''/'') 303), [str ''user'' \<mapsto> DEFAULT_ADMIN_username], w3)"
    by simp
  from admin_logged_in valid_text_new l v c f' n d' show ?thesis by blast
qed

text \<open>
  C10. A successful change of password writes a mapping that differs from the loaded
  one only at the logged-in username: the set of usernames is the same, every other
  username keeps its stored hash, and nothing is printed.
\<close>

theorem change_password_frame:
  assumes "get_current_user session = Some username" and "load_users w = (Inr users, w1)"
    and "users username = Some stored" and "verify_password current stored"
    and "new_password = confirm" and "valid_text new_password"
  shows "\<exists>users' w3.
           change_password session current new_password confirm w =
             (Inr (change_password_page username None (Some (str ''Password updated''))), w3) \<and>
           users_file w3 = Some (Json_object users') \<and>
           dom users' = dom users \<and>
           (\<forall>u. u \<noteq> username \<longrightarrow> users' u = users u) \<and>
           stdout w3 = stdout w1"
proof -
  obtain nw where nw: "encode_utf8 new_password = Inr nw"
    using assms(6) encode_utf8_valid by blast
  define hashed where "hashed = hex (map (entropy w1) [0..<16]) @ str ''$'' @
                 hex (pbkdf2_spec nw (map (entropy w1) [0..<16]) 200000)"
  define w3 where "w3 = save_users (users(username \<mapsto> hashed))
              (w1\<lparr>entropy := (\<lambda>i. entropy w1 (i + 16))\<rparr>)"
  have cp: "change_password session current new_password confirm w =
           (Inr (change_password_page username None (Some (str ''Password updated''))), w3)"
    using change_password_success [OF assms(1-5) nw]
    unfolding w3_def hashed_def .
  have "users_file w3 = Some (Json_object (users(username \<mapsto> hashed)))"
    and "stdout w3 = stdout w1"
    by (simp_all add: w3_def save_users_def)
  moreover have "dom (users(username \<mapsto> hashed)) = dom users"
    using assms(3) by auto
  moreover have "\<forall>u. u \<noteq> username \<longrightarrow> (users(username \<mapsto> hashed)) u = users u"
    by simp
  ultimately show ?thesis using cp by blast
qed

text \<open>The default account changes its password in the two-user world: Bob's entry stays.\<close>

theorem change_password_frame_witness:
  "get_current_user admin_session = Some DEFAULT_ADMIN_username \<and>
   valid_text (str ''NewPass!23'') \<and>
   (\<exists>stored users'.
      load_users two_user_world =
        (Inr [DEFAULT_ADMIN_username \<mapsto> stored, str ''bob'' \<mapsto> str ''00$00''],
         two_user_world) \<and>
      verify_password DEFAULT_ADMIN_password stored \<and>
      users_file (snd (change_password admin_session DEFAULT_ADMIN_password
                         (str ''NewPass!23'') (str ''NewPass!23'') two_user_world)) =
        Some (Json_object users') \<and>
      users' (str ''bob'') = Some (str ''00$00'') \<and>
      dom users' = {DEFAULT_ADMIN_username, str ''bob''})"
proof -
  obtain stored where l: "load_users two_user_world =
        (Inr [DEFAULT_ADMIN_username \<mapsto> stored, str ''bob'' \<mapsto> str ''00$00''],
         two_user_world)"
    and v: "verify_password DEFAULT_ADMIN_password stored"
    using two_users by blast
  have u: "[DEFAULT_ADMIN_username \<mapsto> stored, str ''bob'' \<mapsto> str ''00$00'']
             DEFAULT_ADMIN_username = Some stored"
    using bob_not_admin by simp
  obtain users' w3 where
    c: "change_password admin_session DEFAULT_ADMIN_password
          (str ''NewPass!23'') (str ''NewPass!23'') two_user_world =
        (Inr (change_password_page DEFAULT_ADMIN_username None (Some (str ''Password updated''))),
         w3)"
    and f: "users_file w3 = Some (Json_object users')"
    and d: "dom users' = dom [DEFAULT_ADMIN_username \<mapsto> stored, str ''bob'' \<mapsto> str ''00$00'']"
    and o: "\<forall>u. u \<noteq> DEFAULT_ADMIN_username \<longrightarrow>
              users' u = [DEFAULT_ADMIN_username \<mapsto> stored, str ''bob'' \<mapsto> str ''00$00''] u"
    using change_password_frame [OF admin_logged_in l u v refl valid_text_new]
    by blast
  have f': "users_file (snd (change_password admin_session DEFAULT_ADMIN_password
                         (str ''NewPass!23'') (str ''NewPass!23'') two_user_world)) =
        Some (Json_object users')"
    using c f by simp
  have b: "users' (str ''bob'') = Some (str ''00$00'')"
    using o bob_not_admin by simp
  have d': "dom users' = {DEFAULT_ADMIN_username, str ''bob''}"
    using d by auto
  from admin_logged_in valid_text_new l v f' b d' show ?thesis by blast
qed

end
